theory Spec2Isabelle
  imports Main
begin

section \<open>Python library functions called by server.py\<close>

text \<open>
  The server runs on POSIX paths. The string and path helpers below follow CPython's
  \<^verbatim>\<open>str\<close> methods and \<^verbatim>\<open>posixpath\<close>, which is what
  \<^verbatim>\<open>os.path\<close> is on the deployment platform.
\<close>

definition startswith :: "string \<Rightarrow> string \<Rightarrow> bool" where
  "startswith s pre = (take (length pre) s = pre)"

definition endswith :: "string \<Rightarrow> string \<Rightarrow> bool" where
  "endswith s suf = (length suf \<le> length s \<and> drop (length s - length suf) s = suf)"

text \<open>\<^verbatim>\<open>p.rfind(c)\<close> for a one-character \<open>c\<close>: the last index of
  \<open>c\<close> in \<open>p\<close>, or \<open>-1\<close>.\<close>

fun rfind :: "string \<Rightarrow> char \<Rightarrow> int" where
  "rfind [] c = -1"
| "rfind (x # xs) c =
     (let r = rfind xs c in if 0 \<le> r then r + 1 else if x = c then 0 else -1)"

text \<open>\<^verbatim>\<open>posixpath.basename\<close>: \<^verbatim>\<open>i = p.rfind('/') + 1; return p[i:]\<close>.\<close>

definition basename :: "string \<Rightarrow> string" where
  "basename p = drop (nat (rfind p (CHR ''/'') + 1)) p"

text \<open>
  \<^verbatim>\<open>posixpath.join(a, *p)\<close>: a component that starts with the separator
  replaces what was joined so far; otherwise it is appended, with a separator unless
  the path so far is empty or already ends with one.
\<close>

definition join_step :: "string \<Rightarrow> string \<Rightarrow> string" where
  "join_step path b =
     (if startswith b ''/'' then b
      else if path = [] \<or> endswith path ''/'' then path @ b
      else path @ ''/'' @ b)"

definition path_join :: "string \<Rightarrow> string list \<Rightarrow> string" where
  "path_join a p = foldl join_step a p"

text \<open>
  \<^verbatim>\<open>posixpath.splitext\<close> (\<^verbatim>\<open>genericpath._splitext\<close> with separator
  \<open>/\<close> and extension separator \<open>.\<close>): the extension starts at the last dot, provided
  that dot comes after the last separator and some character of the file name before
  it is not a dot.
\<close>

fun skip_leading_dots :: "string \<Rightarrow> nat \<Rightarrow> nat \<Rightarrow> bool" where
  "skip_leading_dots p filenameIndex 0 = False"
| "skip_leading_dots p filenameIndex (Suc n) =
     (if p ! filenameIndex \<noteq> CHR ''.'' then True
      else skip_leading_dots p (Suc filenameIndex) n)"

definition splitext :: "string \<Rightarrow> string \<times> string" where
  "splitext p =
     (let sepIndex = rfind p (CHR ''/'');
          dotIndex = rfind p (CHR ''.'')
      in if sepIndex < dotIndex \<and>
            skip_leading_dots p (nat (sepIndex + 1)) (nat (dotIndex - (sepIndex + 1)))
         then (take (nat dotIndex) p, drop (nat dotIndex) p)
         else (p, []))"

text \<open>\<^verbatim>\<open>sep.join(xs)\<close> on strings.\<close>

fun str_join :: "string \<Rightarrow> string list \<Rightarrow> string" where
  "str_join sep [] = []"
| "str_join sep [x] = x"
| "str_join sep (x # y # ys) = x @ sep @ str_join sep (y # ys)"

section \<open>Data model\<close>

text \<open>
  Modelled from the spec: the classes \<^verbatim>\<open>Book\<close>, \<^verbatim>\<open>BookMetadata\<close> and
  \<^verbatim>\<open>ChapterContent\<close> are imported from the module \<^verbatim>\<open>reader3\<close>, which
  is not among the sources. The server reads \<^verbatim>\<open>metadata.title\<close>,
  \<^verbatim>\<open>metadata.authors\<close> and \<^verbatim>\<open>spine\<close> only; a chapter is an opaque
  rendering payload. Instances of these classes are truthy in Python (plain data
  classes), so \<^verbatim>\<open>if not book\<close> tests for \<^verbatim>\<open>None\<close>.
\<close>

datatype ChapterContent = ChapterContent string

record BookMetadata =
  title :: string
  authors :: "string list"

record Book =
  metadata :: BookMetadata
  spine :: "ChapterContent list"

text \<open>The incoming request object, handed through to the template unchanged.\<close>

datatype Request = Request string

text \<open>
  The exceptions a handler can leave with. \<^verbatim>\<open>HTTPException(status_code, detail)\<close>
  is what the handlers raise themselves; the other two are raised by Python: a call
  that misses a required argument, and \<^verbatim>\<open>os.listdir\<close> on something that cannot
  be listed.
\<close>

datatype error =
    HTTPException nat string
  | TypeError string
  | OSError string

definition BookNotFound :: error where
  "BookNotFound = HTTPException 404 ''Book not found''"

definition ChapterOutOfRange :: error where
  "ChapterOutOfRange = HTTPException 404 ''Chapter not found''"

definition AssetNotFound :: error where
  "AssetNotFound = HTTPException 404 ''Image not found''"

section \<open>The file system as the handlers observe it\<close>

text \<open>
  One field per call the server makes: \<^verbatim>\<open>os.path.exists\<close>,
  \<^verbatim>\<open>os.path.isdir\<close>, \<^verbatim>\<open>os.listdir\<close> (\<open>None\<close> when it raises) and
  opening a file and running \<^verbatim>\<open>pickle.load\<close> on it (\<open>Inl\<close> with the
  message when either raises an \<^verbatim>\<open>Exception\<close>).
\<close>

record fs =
  path_exists :: "string \<Rightarrow> bool"
  path_isdir :: "string \<Rightarrow> bool"
  listdir :: "string \<Rightarrow> string list option"
  pickle_load :: "string \<Rightarrow> string + Book"

section \<open>The bounded cache: \<^verbatim>\<open>functools.lru_cache(maxsize=10)\<close>\<close>

text \<open>
  The decorator keeps the results of the wrapped function by argument, most recently
  used first, together with the hit and miss counters of \<^verbatim>\<open>cache_info()\<close>.
  A hit moves the entry to the front and returns the stored result. A miss calls the
  function, and stores whatever it returns, dropping the least recently used entry
  when the cache is full. The stored result of \<^verbatim>\<open>load_book_cached\<close> is an
  \<^verbatim>\<open>Optional[Book]\<close>, so an entry holds \<open>Some book\<close> or \<open>None\<close>.
\<close>

record lru =
  entries :: "(string \<times> Book option) list"
  hits :: nat
  misses :: nat

definition maxsize :: nat where
  "maxsize = 10"

definition cache_empty :: lru where
  "cache_empty = \<lparr>entries = [], hits = 0, misses = 0\<rparr>"

definition cache_clear :: "lru \<Rightarrow> lru" where
  "cache_clear c = cache_empty"

definition lru_call :: "(string \<Rightarrow> Book option) \<Rightarrow> lru \<Rightarrow> string \<Rightarrow> Book option \<times> lru" where
  "lru_call f c key =
     (case map_of (entries c) key of
        Some result \<Rightarrow>
          (result,
           c\<lparr>entries := (key, result) # filter (\<lambda>e. fst e \<noteq> key) (entries c),
             hits := hits c + 1\<rparr>)
      | None \<Rightarrow>
          (let result = f key;
               kept = (if maxsize \<le> length (entries c) then butlast (entries c)
                       else entries c)
           in (result, c\<lparr>entries := (key, result) # kept, misses := misses c + 1\<rparr>)))"

section \<open>The handlers of server.py\<close>

text \<open>The body of \<^verbatim>\<open>load_book_cached\<close>, under the decorator.\<close>

definition load_book :: "fs \<Rightarrow> string \<Rightarrow> string \<Rightarrow> Book option" where
  "load_book fsys BOOKS_DIR folder_name =
     (let file_path = path_join BOOKS_DIR [folder_name, ''book.pkl'']
      in if \<not> path_exists fsys file_path then None
         else (case pickle_load fsys file_path of
                 Inr book \<Rightarrow> Some book
               | Inl e \<Rightarrow> None))"

definition load_book_cached :: "fs \<Rightarrow> string \<Rightarrow> lru \<Rightarrow> string \<Rightarrow> Book option \<times> lru" where
  "load_book_cached fsys BOOKS_DIR c folder_name =
     lru_call (load_book fsys BOOKS_DIR) c folder_name"

text \<open>\<^verbatim>\<open>library_view\<close>: the loop over \<^verbatim>\<open>os.listdir(BOOKS_DIR)\<close>,
  and the handler around it. The result is the \<^verbatim>\<open>books\<close> list handed to the
  template.\<close>

record book_entry =
  entry_id :: string
  entry_title :: string
  entry_author :: string
  entry_chapters :: nat

fun library_loop ::
  "fs \<Rightarrow> string \<Rightarrow> string list \<Rightarrow> lru \<Rightarrow> book_entry list \<Rightarrow> book_entry list \<times> lru" where
  "library_loop fsys BOOKS_DIR [] c books = (books, c)"
| "library_loop fsys BOOKS_DIR (item # items) c books =
     (let full_path = path_join BOOKS_DIR [item]
      in if endswith item ''_data'' \<and> path_isdir fsys full_path
         then (case load_book_cached fsys BOOKS_DIR c item of
                 (Some book, c') \<Rightarrow>
                   library_loop fsys BOOKS_DIR items c'
                     (books @ [\<lparr>entry_id = item,
                                entry_title = title (metadata book),
                                entry_author = str_join '', '' (authors (metadata book)),
                                entry_chapters = length (spine book)\<rparr>])
               | (None, c') \<Rightarrow> library_loop fsys BOOKS_DIR items c' books)
         else library_loop fsys BOOKS_DIR items c books)"

definition library_view :: "fs \<Rightarrow> string \<Rightarrow> lru \<Rightarrow> (error + book_entry list) \<times> lru" where
  "library_view fsys BOOKS_DIR c =
     (if path_exists fsys BOOKS_DIR
      then (case listdir fsys BOOKS_DIR of
              None \<Rightarrow> (Inl (OSError BOOKS_DIR), c)
            | Some items \<Rightarrow>
                (case library_loop fsys BOOKS_DIR items c [] of
                   (books, c') \<Rightarrow> (Inr books, c')))
      else (Inr [], c))"

text \<open>\<^verbatim>\<open>read_chapter\<close>: the result is the context handed to the reader template.\<close>

record reader_context =
  ctx_request :: Request
  ctx_book :: Book
  current_chapter :: ChapterContent
  chapter_index :: int
  book_id :: string
  prev_idx :: "int option"
  next_idx :: "int option"

definition read_chapter ::
  "fs \<Rightarrow> string \<Rightarrow> lru \<Rightarrow> Request \<Rightarrow> string \<Rightarrow> int \<Rightarrow> (error + reader_context) \<times> lru" where
  "read_chapter fsys BOOKS_DIR c request bid idx =
     (case load_book_cached fsys BOOKS_DIR c bid of
        (None, c') \<Rightarrow> (Inl (HTTPException 404 ''Book not found''), c')
      | (Some book, c') \<Rightarrow>
          if idx < 0 \<or> int (length (spine book)) \<le> idx
          then (Inl (HTTPException 404 ''Chapter not found''), c')
          else (Inr \<lparr>ctx_request = request,
                     ctx_book = book,
                     current_chapter = spine book ! nat idx,
                     chapter_index = idx,
                     book_id = bid,
                     prev_idx = (if 0 < idx then Some (idx - 1) else None),
                     next_idx = (if idx < int (length (spine book)) - 1
                                 then Some (idx + 1) else None)\<rparr>, c'))"

text \<open>
  Python binds the keyword arguments of a call to the parameters of
  \<^verbatim>\<open>read_chapter(request, book_id, chapter_index)\<close>, none of which has a
  default, before the body runs: a call that leaves \<^verbatim>\<open>request\<close> out raises
  \<^verbatim>\<open>TypeError\<close> and the body is never entered. The route decorator returns the
  function unchanged, so this is the function \<^verbatim>\<open>redirect_to_first_chapter\<close>
  calls.
\<close>

definition call_read_chapter ::
  "fs \<Rightarrow> string \<Rightarrow> lru \<Rightarrow> Request option \<Rightarrow> string \<Rightarrow> int \<Rightarrow> (error + reader_context) \<times> lru" where
  "call_read_chapter fsys BOOKS_DIR c request bid idx =
     (case request of
        None \<Rightarrow> (Inl (TypeError ''read_chapter() missing 1 required positional argument: request''), c)
      | Some r \<Rightarrow> read_chapter fsys BOOKS_DIR c r bid idx)"

text \<open>\<^verbatim>\<open>redirect_to_first_chapter\<close>:
  \<^verbatim>\<open>return await read_chapter(book_id=book_id, chapter_index=0)\<close>.\<close>

definition redirect_to_first_chapter ::
  "fs \<Rightarrow> string \<Rightarrow> lru \<Rightarrow> string \<Rightarrow> (error + reader_context) \<times> lru" where
  "redirect_to_first_chapter fsys BOOKS_DIR c bid =
     call_read_chapter fsys BOOKS_DIR c None bid 0"

text \<open>\<^verbatim>\<open>serve_image\<close>: the path it builds, and the handler. The result is the path
  of the file sent back.\<close>

definition image_path :: "string \<Rightarrow> string \<Rightarrow> string \<Rightarrow> string" where
  "image_path BOOKS_DIR bid image_name =
     (let safe_book_id = basename bid;
          safe_image_name = basename image_name
      in path_join BOOKS_DIR [safe_book_id, ''images'', safe_image_name])"

definition serve_image :: "fs \<Rightarrow> string \<Rightarrow> string \<Rightarrow> string \<Rightarrow> error + string" where
  "serve_image fsys BOOKS_DIR bid image_name =
     (let img_path = image_path BOOKS_DIR bid image_name
      in if \<not> path_exists fsys img_path then Inl (HTTPException 404 ''Image not found'')
         else Inr img_path)"

text \<open>
  \<^verbatim>\<open>upload_epub\<close>. The external calls are parameters: the name
  \<^verbatim>\<open>NamedTemporaryFile\<close> creates the file under, reading the upload and writing
  it there, \<^verbatim>\<open>process_epub\<close> and \<^verbatim>\<open>save_to_pickle\<close>; each is
  \<open>Inl\<close> with the message when it raises. The state is the cache together with the
  temporary files that exist. Every exception inside the \<^verbatim>\<open>try\<close> ends in the
  \<^verbatim>\<open>except\<close> branch, which answers 500 and does nothing else.
\<close>

datatype json = JStr string | JBool bool

datatype response = JSONResponse nat "(string \<times> json) list"

record ingest =
  tmp_name :: "string + string"
  write_tmp :: "string + unit"
  process_epub :: "string \<Rightarrow> string \<Rightarrow> string + Book"
  save_to_pickle :: "Book \<Rightarrow> string \<Rightarrow> string + unit"

record server =
  book_cache :: lru
  tmp_files :: "string set"

definition upload_output_dir :: "string \<Rightarrow> string \<Rightarrow> string" where
  "upload_output_dir BOOKS_DIR filename =
     (let base_name = fst (splitext filename)
      in path_join BOOKS_DIR [base_name @ ''_data''])"

definition upload_epub :: "ingest \<Rightarrow> string \<Rightarrow> server \<Rightarrow> string \<Rightarrow> response \<times> server" where
  "upload_epub env BOOKS_DIR st filename =
     (if \<not> endswith filename ''.epub''
      then (JSONResponse 400 [(''error'', JStr ''Only .epub files are allowed'')], st)
      else
        (case tmp_name env of
           Inl e \<Rightarrow> (JSONResponse 500 [(''error'', JStr e)], st)
         | Inr tmp_path \<Rightarrow>
             (let st1 = st\<lparr>tmp_files := insert tmp_path (tmp_files st)\<rparr>
              in case write_tmp env of
                   Inl e \<Rightarrow> (JSONResponse 500 [(''error'', JStr e)], st1)
                 | Inr u \<Rightarrow>
                     (let base_name = fst (splitext filename);
                          output_dir = upload_output_dir BOOKS_DIR filename
                      in case process_epub env tmp_path output_dir of
                           Inl e \<Rightarrow> (JSONResponse 500 [(''error'', JStr e)], st1)
                         | Inr book_obj \<Rightarrow>
                             (case save_to_pickle env book_obj output_dir of
                                Inl e \<Rightarrow> (JSONResponse 500 [(''error'', JStr e)], st1)
                              | Inr v \<Rightarrow>
                                  (JSONResponse 200
                                     [(''success'', JBool True),
                                      (''title'', JStr (title (metadata book_obj))),
                                      (''id'', JStr (base_name @ ''_data''))],
                                   st1\<lparr>tmp_files := tmp_files st1 - {tmp_path},
                                       book_cache := cache_clear (book_cache st1)\<rparr>))))))"

section \<open>The specification's vocabulary\<close>

text \<open>
  The definitions of this section follow the words of the specification, not the
  code; the theorems compare the handlers with them.
\<close>

text \<open>Scanner: the direct children that are directories and whose name ends with
  the fixed suffix.\<close>

definition list_candidates :: "fs \<Rightarrow> string \<Rightarrow> string list \<Rightarrow> string list" where
  "list_candidates fsys root children =
     filter (\<lambda>name. endswith name ''_data'' \<and> path_isdir fsys (path_join root [name])) children"

text \<open>The cache's \<open>get\<close>, asked for each identity of a list in turn.\<close>

fun cache_gets ::
  "fs \<Rightarrow> string \<Rightarrow> lru \<Rightarrow> string list \<Rightarrow> (string \<times> Book option) list \<times> lru" where
  "cache_gets fsys root c [] = ([], c)"
| "cache_gets fsys root c (k # ks) =
     (case load_book_cached fsys root c k of
        (r, c') \<Rightarrow> (case cache_gets fsys root c' ks of (rs, c'') \<Rightarrow> ((k, r) # rs, c'')))"

text \<open>Catalog Assembler: nothing for an absent book, one summary for a resolved one.\<close>

fun emit :: "string \<times> Book option \<Rightarrow> book_entry list" where
  "emit (k, None) = []"
| "emit (k, Some book) =
     [\<lparr>entry_id = k,
       entry_title = title (metadata book),
       entry_author = str_join '', '' (authors (metadata book)),
       entry_chapters = length (spine book)\<rparr>]"

definition list_books :: "fs \<Rightarrow> string \<Rightarrow> lru \<Rightarrow> string list \<Rightarrow> book_entry list \<times> lru" where
  "list_books fsys root c children =
     (case cache_gets fsys root c (list_candidates fsys root children) of
        (rs, c') \<Rightarrow> (concat (map emit rs), c'))"

text \<open>A sequence of \<open>get\<close> calls, each against the disk as it is at that moment.\<close>

fun run_gets :: "string \<Rightarrow> lru \<Rightarrow> (fs \<times> string) list \<Rightarrow> lru" where
  "run_gets root c [] = c"
| "run_gets root c ((fsys, k) # calls) =
     run_gets root (snd (load_book_cached fsys root c k)) calls"

definition cached :: "lru \<Rightarrow> string \<Rightarrow> bool" where
  "cached c k = (k \<in> fst ` set (entries c))"

text \<open>The entry of an identity stays in the cache throughout a sequence of \<open>get\<close>
  calls: it is there before each call and after the last, so no call has evicted it.\<close>

fun kept :: "string \<Rightarrow> lru \<Rightarrow> string \<Rightarrow> (fs \<times> string) list \<Rightarrow> bool" where
  "kept root c k [] = cached c k"
| "kept root c k ((fsys, k') # calls) =
     (cached c k \<and> kept root (snd (load_book_cached fsys root c k')) k calls)"

text \<open>
  Where an absolute path leads: the directory names from the file system's root after
  empty segments and \<open>.\<close> are dropped and each \<open>..\<close> has gone up one level (staying at
  the root there), symbolic links aside. A path lies inside a root when the root's
  directories are a proper prefix of its own, and directly under it when exactly one
  name follows them.
\<close>

fun split_on :: "char \<Rightarrow> string \<Rightarrow> string list" where
  "split_on c [] = [[]]"
| "split_on c (x # xs) =
     (if x = c then [] # split_on c xs
      else (case split_on c xs of [] \<Rightarrow> [[x]] | y # ys \<Rightarrow> (x # y) # ys))"

fun walk :: "string list \<Rightarrow> string list \<Rightarrow> string list" where
  "walk stack [] = rev stack"
| "walk stack (s # segs) =
     (if s = [] \<or> s = ''.'' then walk stack segs
      else if s = ''..'' then walk (tl stack) segs
      else walk (s # stack) segs)"

definition leads_to :: "string \<Rightarrow> string list" where
  "leads_to p = walk [] (split_on (CHR ''/'') p)"

definition inside :: "string \<Rightarrow> string \<Rightarrow> bool" where
  "inside root p =
     (length (leads_to root) < length (leads_to p) \<and>
      take (length (leads_to root)) (leads_to p) = leads_to root)"

definition directly_under :: "string \<Rightarrow> string \<Rightarrow> bool" where
  "directly_under root p =
     (length (leads_to p) = Suc (length (leads_to root)) \<and>
      take (length (leads_to root)) (leads_to p) = leads_to root)"

definition has_traversal :: "string \<Rightarrow> bool" where
  "has_traversal p = (''..'' \<in> set (split_on (CHR ''/'') p))"

section \<open>Sample stores\<close>

definition sample_book :: Book where
  "sample_book =
     \<lparr>metadata = \<lparr>title = ''Sample'', authors = [''A. Author'']\<rparr>,
      spine = [ChapterContent ''one'', ChapterContent ''two'', ChapterContent ''three'']\<rparr>"

text \<open>No store at all.\<close>

definition no_store :: fs where
  "no_store =
     \<lparr>path_exists = (\<lambda>p. False), path_isdir = (\<lambda>p. False),
      listdir = (\<lambda>p. None), pickle_load = (\<lambda>p. Inl ''No such file or directory'')\<rparr>"

text \<open>The store \<open>/data\<close> holding the one book folder \<open>Sample_data\<close>, next to a
  plain file and a folder without artifact. Outside the store, \<open>/images/cover.jpg\<close>
  exists, which is also what the name \<open>/data/../images/cover.jpg\<close> leads to.\<close>

definition sample_store :: fs where
  "sample_store =
     \<lparr>path_exists = (\<lambda>p. p \<in> {''/data'', ''/data/Sample_data'', ''/data/Sample_data/book.pkl'',
                              ''/data/notes_data'', ''/data/empty_data'',
                              ''/data/Sample_data/images/cover.jpg'',
                              ''/images/cover.jpg'', ''/data/../images/cover.jpg''}),
      path_isdir = (\<lambda>p. p \<in> {''/data'', ''/data/Sample_data'', ''/data/empty_data''}),
      listdir = (\<lambda>p. if p = ''/data'' then Some [''empty_data'', ''Sample_data'', ''notes_data'']
                      else None),
      pickle_load = (\<lambda>p. if p = ''/data/Sample_data/book.pkl'' then Inr sample_book
                          else Inl ''No such file or directory'')\<rparr>"



text \<open>Two later \<open>get\<close> calls for other identities, made once the sample store is on
  disk.\<close>

definition later_gets :: "(fs \<times> string) list" where
  "later_gets = [(sample_store, ''empty_data''), (sample_store, ''Other_data'')]"

text \<open>An ingestion that rejects the upload, and one that accepts it.\<close>

definition failing_ingest :: ingest where
  "failing_ingest =
     \<lparr>tmp_name = Inr ''/tmp/tmpk3v9.epub'', write_tmp = Inr (),
      process_epub = (\<lambda>epub_path output_dir. Inl ''File is not a zip file''),
      save_to_pickle = (\<lambda>book output_dir. Inr ())\<rparr>"

definition working_ingest :: ingest where
  "working_ingest =
     \<lparr>tmp_name = Inr ''/tmp/tmpk3v9.epub'', write_tmp = Inr (),
      process_epub = (\<lambda>epub_path output_dir. Inr sample_book),
      save_to_pickle = (\<lambda>book output_dir. Inr ())\<rparr>"

definition idle_server :: server where
  "idle_server = \<lparr>book_cache = cache_empty, tmp_files = {}\<rparr>"

section \<open>Evaluation and basic facts\<close>

lemmas eval_defs = load_book_cached_def lru_call_def load_book_def path_join_def join_step_def
  startswith_def endswith_def cache_empty_def maxsize_def Let_def

lemma rfind_range: "- 1 \<le> rfind p c \<and> rfind p c < int (length p)"
  by (induction p) (auto simp: Let_def)

lemma rfind_after: "c \<notin> set (drop (nat (rfind p c + 1)) p)"
proof (induction p)
  case Nil
  show ?case by simp
next
  case (Cons x xs)
  show ?case
  proof (cases "0 \<le> rfind xs c")
    case True
    then have "nat (rfind xs c + 1 + 1) = Suc (nat (rfind xs c + 1))" by simp
    with True Cons show ?thesis by (simp add: Let_def)
  next
    case False
    with rfind_range [of xs c] have "rfind xs c = - 1" by simp
    with Cons show ?thesis by (simp add: Let_def)
  qed
qed

lemma basename_no_sep: "CHR ''/'' \<notin> set (basename p)"
  by (simp add: basename_def rfind_after)

lemma startswith_sep: "startswith s ''/'' \<longleftrightarrow> s \<noteq> [] \<and> hd s = CHR ''/''"
  by (cases s) (auto simp: startswith_def)

lemma endswith_sep: "endswith s ''/'' \<longleftrightarrow> s \<noteq> [] \<and> last s = CHR ''/''"
proof (cases s rule: rev_cases)
  case Nil
  then show ?thesis by (simp add: endswith_def)
next
  case (snoc ys y)
  then show ?thesis by (auto simp: endswith_def)
qed

lemma no_sep_startswith: "CHR ''/'' \<notin> set s \<Longrightarrow> \<not> startswith s ''/''"
  by (cases s) (auto simp: startswith_def)

lemma no_sep_endswith: "CHR ''/'' \<notin> set s \<Longrightarrow> \<not> endswith s ''/''"
  by (metis endswith_sep last_in_set)

text \<open>
  For a store root that is not empty and does not end with a separator, and a book
  identity whose last component is not empty, the image path has the shape
  \<open>root/basename(book_id)/images/basename(image_name)\<close>. When that component is a
  name other than \<open>.\<close> and \<open>..\<close>, the path stays inside the root.
\<close>

lemma image_path_shape:
  assumes root: "root \<noteq> []" "\<not> endswith root ''/''" and b: "basename b \<noteq> []"
  shows "image_path root b a = root @ ''/'' @ basename b @ ''/images/'' @ basename a"
proof -
  have 1: "join_step root (basename b) = root @ ''/'' @ basename b"
    using root by (simp add: join_step_def no_sep_startswith basename_no_sep)
  have "last (root @ ''/'' @ basename b) = last (basename b)" using b by simp
  moreover have "last (basename b) \<in> set (basename b)" using b by simp
  ultimately have "last (root @ ''/'' @ basename b) \<noteq> CHR ''/''"
    using basename_no_sep [of b] by metis
  then have 2: "join_step (root @ ''/'' @ basename b) ''images'' = root @ ''/'' @ basename b @ ''/images''"
    by (simp add: join_step_def startswith_def endswith_sep)
  have 3: "join_step (root @ ''/'' @ basename b @ ''/images'') (basename a)
             = root @ ''/'' @ basename b @ ''/images/'' @ basename a"
    by (simp add: join_step_def no_sep_startswith basename_no_sep endswith_sep)
  show ?thesis
    by (simp only: image_path_def Let_def path_join_def foldl_Cons foldl_Nil 1 2 3)
qed

lemma split_on_nonempty: "split_on c s \<noteq> []"
  by (induction s) (auto split: list.splits)

lemma split_on_append:
  "split_on c (xs @ c # ys) = split_on c xs @ split_on c ys"
  using split_on_nonempty [of c] by (induction xs) (auto split: list.splits)

lemma split_on_no_sep: "c \<notin> set s \<Longrightarrow> split_on c s = [s]"
  by (induction s) auto

lemma walk_append: "walk stack (xs @ ys) = walk (rev (walk stack xs)) ys"
  by (induction stack xs rule: walk.induct) auto

lemma leads_to_image_path:
  assumes root: "root \<noteq> []" "\<not> endswith root ''/''"
    and b: "basename b \<noteq> []" "basename b \<noteq> ''.''" "basename b \<noteq> ''..''"
  shows "\<exists>rest. leads_to (image_path root b a) = leads_to root @ basename b # rest"
proof -
  let ?L = "leads_to root"
  have sp: "split_on (CHR ''/'') (image_path root b a)
          = split_on (CHR ''/'') root @ [basename b, ''images'', basename a]"
    using split_on_append [of "CHR ''/''"]
    by (simp add: image_path_shape [OF root b(1)] split_on_no_sep basename_no_sep)
  have "leads_to (image_path root b a) = walk (rev ?L) [basename b, ''images'', basename a]"
    by (simp add: leads_to_def sp walk_append)
  also have "\<dots> = walk (''images'' # basename b # rev ?L) [basename a]"
    using b by simp
  finally have "leads_to (image_path root b a) = walk (''images'' # basename b # rev ?L) [basename a]" .
  then show ?thesis by (cases "basename a = [] \<or> basename a = ''.''"; cases "basename a = ''..''") auto
qed

lemma image_path_inside:
  assumes "root \<noteq> []" "\<not> endswith root ''/''"
    and "basename b \<noteq> []" "basename b \<noteq> ''.''" "basename b \<noteq> ''..''"
  shows "inside root (image_path root b a)"
proof -
  from leads_to_image_path [OF assms, of a] obtain rest where
    "leads_to (image_path root b a) = leads_to root @ basename b # rest" ..
  then show ?thesis by (simp add: inside_def)
qed

lemma serve_image_result:
  "serve_image fsys root b a =
     (if path_exists fsys (image_path root b a) then Inr (image_path root b a)
      else Inl AssetNotFound)"
  by (simp add: serve_image_def AssetNotFound_def)

text \<open>
  An upload name without a separator gives an output folder directly under the root.
\<close>

lemma splitext_fst_take: "\<exists>n. fst (splitext p) = take n p"
proof (cases "rfind p (CHR ''/'') < rfind p (CHR ''.'') \<and>
            skip_leading_dots p (nat (rfind p (CHR ''/'') + 1))
              (nat (rfind p (CHR ''.'') - (rfind p (CHR ''/'') + 1)))")
  case True
  then have "fst (splitext p) = take (nat (rfind p (CHR ''.''))) p"
    by (simp add: splitext_def Let_def)
  then show ?thesis ..
next
  case False
  then have "fst (splitext p) = take (length p) p"
    by (auto simp add: splitext_def Let_def)
  then show ?thesis ..
qed

lemma upload_output_dir_plain:
  assumes root: "root \<noteq> []" "\<not> endswith root ''/''" and plain: "CHR ''/'' \<notin> set filename"
  shows "directly_under root (upload_output_dir root filename)"
proof -
  let ?name = "fst (splitext filename) @ ''_data''"
  obtain n where "fst (splitext filename) = take n filename"
    using splitext_fst_take by blast
  with plain have ns: "CHR ''/'' \<notin> set ?name"
    by (auto dest: in_set_takeD)
  have shape: "upload_output_dir root filename = root @ CHR ''/'' # ?name"
    using root ns by (simp add: upload_output_dir_def path_join_def join_step_def no_sep_startswith)
  have ne: "?name \<noteq> [] \<and> ?name \<noteq> ''.'' \<and> ?name \<noteq> ''..''"
    by (cases "fst (splitext filename)" rule: rev_cases) auto
  have "leads_to (upload_output_dir root filename) = walk (rev (leads_to root)) [?name]"
    unfolding shape leads_to_def split_on_append
    by (simp add: walk_append split_on_no_sep [OF ns])
  also have "\<dots> = leads_to root @ [?name]" using ne by simp
  finally show ?thesis by (simp add: directly_under_def)
qed

lemma splitext_evil: "splitext ''../../evil.epub'' = (''../../evil'', ''.epub'')"
  by (simp add: splitext_def Let_def eval_nat_numeral)

lemma splitext_sample: "splitext ''Sample.epub'' = (''Sample'', ''.epub'')"
  by (simp add: splitext_def Let_def eval_nat_numeral)

lemma map_of_None_iff_not_cached: "map_of (entries c) k = None \<longleftrightarrow> \<not> cached c k"
  by (simp add: cached_def map_of_eq_None_iff)




lemma lru_call_miss:
  assumes "\<not> cached c k"
  shows "lru_call f c k =
    (f k, c\<lparr>entries := (k, f k) # (if maxsize \<le> length (entries c) then butlast (entries c) else entries c),
           misses := misses c + 1\<rparr>)"
  using assms by (simp add: lru_call_def Let_def map_of_None_iff_not_cached [symmetric])





section \<open>The cache\<close>



text \<open>
  C4. As stated, the property fails: the decorator stores whatever the function returns,
  \<^verbatim>\<open>None\<close> included. With no store on disk, the first \<open>get\<close> for
  \<open>Sample_data\<close> returns absent and leaves the entry \<open>(Sample_data, None)\<close>; once the
  artifact is there and loads, the next \<open>get\<close> is a hit that still returns absent,
  with no further miss counted.
\<close>

theorem negative_result_cached_counterexample:
  "load_book no_store ''/data'' ''Sample_data'' = None
   \<and> load_book_cached no_store ''/data'' cache_empty ''Sample_data''
       = (None, \<lparr>entries = [(''Sample_data'', None)], hits = 0, misses = 1\<rparr>)
   \<and> load_book sample_store ''/data'' ''Sample_data'' = Some sample_book
   \<and> load_book_cached sample_store ''/data''
        \<lparr>entries = [(''Sample_data'', None)], hits = 0, misses = 1\<rparr> ''Sample_data''
       = (None, \<lparr>entries = [(''Sample_data'', None)], hits = 1, misses = 1\<rparr>)"
  by (simp add: no_store_def sample_store_def eval_defs)

text \<open>
  A remembered absent is returned by every hit, on any cache that holds it, and a
  \<open>get\<close> for another identity leaves it in place unless that \<open>get\<close> is a miss on
  the full cache whose least recently used entry it is.
\<close>

lemma map_of_filter_other:
  "k \<noteq> k' \<Longrightarrow> map_of (filter (\<lambda>e. fst e \<noteq> k') es) k = map_of es k"
  by (induction es) auto

lemma map_of_butlast:
  assumes "k \<in> fst ` set (butlast es)"
  shows "map_of (butlast es) k = map_of es k"
proof (cases "es = []")
  case True
  then show ?thesis by simp
next
  case False
  then have "es = butlast es @ [last es]" by simp
  then have "map_of es k = map_of (butlast es @ [last es]) k" by simp
  also have "\<dots> = (map_of [last es] ++ map_of (butlast es)) k" by (simp only: map_of_append)
  also have "\<dots> = map_of (butlast es) k"
    using assms by (simp add: map_add_dom_app_simps dom_map_of_conv_image_fst)
  finally show ?thesis by simp
qed

lemma absent_hit:
  assumes "map_of (entries c) k = Some None"
  shows "load_book_cached fsys root c k =
           (None, c\<lparr>entries := (k, None) # filter (\<lambda>e. fst e \<noteq> k) (entries c),
                     hits := hits c + 1\<rparr>)"
  using assms by (simp add: load_book_cached_def lru_call_def)

lemma absent_survives:
  assumes held: "map_of (entries c) k = Some None"
    and still: "cached (snd (load_book_cached fsys root c k')) k"
  shows "map_of (entries (snd (load_book_cached fsys root c k'))) k = Some None"
proof (cases "k' = k")
  case True
  then show ?thesis by (simp add: absent_hit [OF held])
next
  case other: False
  show ?thesis
  proof (cases "map_of (entries c) k'")
    case (Some v)
    then show ?thesis using other held
      by (simp add: load_book_cached_def lru_call_def map_of_filter_other)
  next
    case None
    show ?thesis
    proof (cases "maxsize \<le> length (entries c)")
      case False
      with None other held show ?thesis
        by (simp add: load_book_cached_def lru_call_def Let_def)
    next
      case True
      with None other still have "k \<in> fst ` set (butlast (entries c))"
        by (auto simp: load_book_cached_def lru_call_def Let_def cached_def)
      from map_of_butlast [OF this] None True other held show ?thesis
        by (simp add: load_book_cached_def lru_call_def Let_def)
    qed
  qed
qed

lemma absent_kept_unless_evicted:
  assumes held: "map_of (entries c) k = Some None"
    and safe: "cached c k' \<or> length (entries c) < maxsize \<or> fst (last (entries c)) \<noteq> k"
  shows "map_of (entries (snd (load_book_cached fsys root c k'))) k = Some None"
proof (rule absent_survives [OF held])
  from held have ck: "k \<in> fst ` set (entries c)"
    by (metis domI dom_map_of_conv_image_fst)
  show "cached (snd (load_book_cached fsys root c k')) k"
  proof (cases "k' = k")
    case True
    then show ?thesis by (simp add: absent_hit [OF held] cached_def)
  next
    case other: False
    show ?thesis
    proof (cases "map_of (entries c) k'")
      case (Some v)
      with ck other show ?thesis
        by (force simp: load_book_cached_def lru_call_def cached_def)
    next
      case None
      then have nc: "\<not> cached c k'" by (simp add: map_of_None_iff_not_cached)
      show ?thesis
      proof (cases "maxsize \<le> length (entries c)")
        case False
        with None ck show ?thesis
          by (simp add: load_book_cached_def lru_call_def Let_def cached_def)
      next
        case True
        with safe nc have l: "fst (last (entries c)) \<noteq> k" by simp
        from ck have ne: "entries c \<noteq> []" by auto
        then have "entries c = butlast (entries c) @ [last (entries c)]" by simp
        then have "set (entries c) = set (butlast (entries c)) \<union> {last (entries c)}"
          by (metis list.set(1) list.simps(15) set_append)
        with ck l have "k \<in> fst ` set (butlast (entries c))" by auto
        with None True show ?thesis
          by (simp add: load_book_cached_def lru_call_def Let_def cached_def)
      qed
    qed
  qed
qed

lemma absent_kept_run:
  assumes "map_of (entries c) k = Some None" and "kept root c k calls"
  shows "map_of (entries (run_gets root c calls)) k = Some None"
  using assms
proof (induction calls arbitrary: c)
  case Nil
  then show ?case by simp
next
  case (Cons a calls)
  obtain fsys k' where a: "a = (fsys, k')" by (cases a)
  let ?c' = "snd (load_book_cached fsys root c k')"
  from Cons.prems a have k': "kept root ?c' k calls" by simp
  then have "cached ?c' k" by (cases calls) auto
  with Cons.prems have "map_of (entries ?c') k = Some None"
    by (simp add: absent_survives)
  from Cons.IH [OF this k'] show ?case by (simp add: a)
qed

text \<open>
  C4, amended. For an identity that is not in the cache and whose artifact is absent on
  disk or fails to deserialize, \<open>get\<close> returns absent to the caller and stores that
  absent result under the identity, as it stores any result. While the entry stays in
  the cache, a later \<open>get\<close> for the same identity returns the remembered absent
  without a load from disk (no miss is counted), whatever the disk holds by then:
  directly afterwards, and after any sequence of \<open>get\<close> calls, for this or other
  identities and against any disks, throughout which the entry stays. The same holds
  on any cache that holds an absent result for the identity, and a \<open>get\<close> for any
  identity keeps the entry unless it is a miss on the full cache whose last, least
  recently used, entry is this one. The full clear drops it.
\<close>

theorem negative_result_cached:
  assumes miss: "\<not> cached c k"
    and absent: "\<not> path_exists fsys (path_join root [k, ''book.pkl''])
                 \<or> (\<exists>e. pickle_load fsys (path_join root [k, ''book.pkl'']) = Inl e)"
  shows "fst (load_book_cached fsys root c k) = None
         \<and> map_of (entries (snd (load_book_cached fsys root c k))) k = Some None
         \<and> fst (load_book_cached fsys' root (snd (load_book_cached fsys root c k)) k) = None
         \<and> misses (snd (load_book_cached fsys' root (snd (load_book_cached fsys root c k)) k))
             = misses (snd (load_book_cached fsys root c k))
         \<and> (\<forall>calls fsys''.
               kept root (snd (load_book_cached fsys root c k)) k calls \<longrightarrow>
               map_of (entries (run_gets root (snd (load_book_cached fsys root c k)) calls)) k
                 = Some None
               \<and> fst (load_book_cached fsys'' root
                        (run_gets root (snd (load_book_cached fsys root c k)) calls) k) = None
               \<and> misses (snd (load_book_cached fsys'' root
                        (run_gets root (snd (load_book_cached fsys root c k)) calls) k))
                   = misses (run_gets root (snd (load_book_cached fsys root c k)) calls))
         \<and> (\<forall>held fsys'' k'.
               map_of (entries held) k = Some None \<longrightarrow>
               fst (load_book_cached fsys'' root held k) = None
               \<and> misses (snd (load_book_cached fsys'' root held k)) = misses held
               \<and> (cached held k' \<or> length (entries held) < maxsize
                    \<or> fst (last (entries held)) \<noteq> k \<longrightarrow>
                  map_of (entries (snd (load_book_cached fsys'' root held k'))) k = Some None))
         \<and> \<not> cached (cache_clear (snd (load_book_cached fsys root c k))) k"
proof -
  from absent have none: "load_book fsys root k = None"
    by (auto simp: load_book_def Let_def)
  let ?c1 = "snd (load_book_cached fsys root c k)"
  have r: "fst (load_book_cached fsys root c k) = None"
    by (simp add: load_book_cached_def lru_call_miss [OF miss] none)
  have m: "map_of (entries ?c1) k = Some None"
    by (simp add: load_book_cached_def lru_call_miss [OF miss] none)
  have later: "fst (load_book_cached fsys' root ?c1 k) = None
      \<and> misses (snd (load_book_cached fsys' root ?c1 k)) = misses ?c1"
    by (simp add: absent_hit [OF m])
  have run: "\<forall>calls fsys''. kept root ?c1 k calls \<longrightarrow>
               map_of (entries (run_gets root ?c1 calls)) k = Some None
               \<and> fst (load_book_cached fsys'' root (run_gets root ?c1 calls) k) = None
               \<and> misses (snd (load_book_cached fsys'' root (run_gets root ?c1 calls) k))
                   = misses (run_gets root ?c1 calls)"
  proof (intro allI impI)
    fix calls fsys''
    assume "kept root ?c1 k calls"
    with m have h: "map_of (entries (run_gets root ?c1 calls)) k = Some None"
      by (rule absent_kept_run)
    then show "map_of (entries (run_gets root ?c1 calls)) k = Some None
               \<and> fst (load_book_cached fsys'' root (run_gets root ?c1 calls) k) = None
               \<and> misses (snd (load_book_cached fsys'' root (run_gets root ?c1 calls) k))
                   = misses (run_gets root ?c1 calls)"
      by (simp add: absent_hit [OF h])
  qed
  have any: "\<forall>held fsys'' k'.
               map_of (entries held) k = Some None \<longrightarrow>
               fst (load_book_cached fsys'' root held k) = None
               \<and> misses (snd (load_book_cached fsys'' root held k)) = misses held
               \<and> (cached held k' \<or> length (entries held) < maxsize
                    \<or> fst (last (entries held)) \<noteq> k \<longrightarrow>
                  map_of (entries (snd (load_book_cached fsys'' root held k'))) k = Some None)"
  proof (intro allI impI conjI)
    fix held :: lru and fsys'' k'
    assume h: "map_of (entries held) k = Some None"
    show "fst (load_book_cached fsys'' root held k) = None"
      by (simp add: absent_hit [OF h])
    show "misses (snd (load_book_cached fsys'' root held k)) = misses held"
      by (simp add: absent_hit [OF h])
    assume "cached held k' \<or> length (entries held) < maxsize \<or> fst (last (entries held)) \<noteq> k"
    with h show "map_of (entries (snd (load_book_cached fsys'' root held k'))) k = Some None"
      by (rule absent_kept_unless_evicted)
  qed
  have clear: "\<not> cached (cache_clear ?c1) k"
    by (simp add: cache_clear_def cache_empty_def cached_def)
  from r m later run any clear show ?thesis by blast
qed

theorem negative_result_cached_witness:
  "\<not> cached cache_empty ''Sample_data''
   \<and> \<not> path_exists no_store (path_join ''/data'' [''Sample_data'', ''book.pkl''])
   \<and> fst (load_book_cached no_store ''/data'' cache_empty ''Sample_data'') = None
   \<and> load_book sample_store ''/data'' ''Sample_data'' = Some sample_book
   \<and> fst (load_book_cached sample_store ''/data''
        (snd (load_book_cached no_store ''/data'' cache_empty ''Sample_data'')) ''Sample_data'') = None
   \<and> kept ''/data'' (snd (load_book_cached no_store ''/data'' cache_empty ''Sample_data''))
        ''Sample_data'' later_gets
   \<and> fst (load_book_cached sample_store ''/data''
        (run_gets ''/data'' (snd (load_book_cached no_store ''/data'' cache_empty ''Sample_data''))
           later_gets) ''Sample_data'') = None"
proof -
  have m: "\<not> cached cache_empty ''Sample_data''"
    by (simp add: cached_def cache_empty_def)
  have a: "\<not> path_exists no_store (path_join ''/data'' [''Sample_data'', ''book.pkl''])"
    by (simp add: no_store_def)
  have l: "load_book sample_store ''/data'' ''Sample_data'' = Some sample_book"
    by (simp add: sample_store_def eval_defs)
  have c1: "snd (load_book_cached no_store ''/data'' cache_empty ''Sample_data'')
              = \<lparr>entries = [(''Sample_data'', None)], hits = 0, misses = 1\<rparr>"
    by (simp add: no_store_def eval_defs)
  have k: "kept ''/data'' (snd (load_book_cached no_store ''/data'' cache_empty ''Sample_data''))
        ''Sample_data'' later_gets"
    unfolding c1 by (simp add: later_gets_def sample_store_def eval_defs cached_def)
  note t = negative_result_cached [OF m, of no_store "''/data''" sample_store]
  from t a have
    "fst (load_book_cached no_store ''/data'' cache_empty ''Sample_data'') = None"
    "fst (load_book_cached sample_store ''/data''
        (snd (load_book_cached no_store ''/data'' cache_empty ''Sample_data'')) ''Sample_data'') = None"
    by blast+
  moreover from t a k have "fst (load_book_cached sample_store ''/data''
        (run_gets ''/data'' (snd (load_book_cached no_store ''/data'' cache_empty ''Sample_data''))
           later_gets) ''Sample_data'') = None"
    by blast
  ultimately show ?thesis using m a l k by blast
qed

section \<open>Catalog listing\<close>

lemma library_loop_list_books:
  "library_loop fsys root items c books =
     (books @ fst (list_books fsys root c items), snd (list_books fsys root c items))"
proof (induction items arbitrary: c books)
  case Nil
  show ?case by (simp add: list_books_def list_candidates_def)
next
  case (Cons item items)
  show ?case
  proof (cases "endswith item ''_data'' \<and> path_isdir fsys (path_join root [item])")
    case False
    then have "list_books fsys root c (item # items) = list_books fsys root c items"
      by (auto simp add: list_books_def list_candidates_def)
    with False show ?thesis by (auto simp add: Cons.IH)
  next
    case True
    obtain r c' where g: "load_book_cached fsys root c item = (r, c')"
      by (cases "load_book_cached fsys root c item")
    have lb: "list_books fsys root c (item # items) =
            (emit (item, r) @ fst (list_books fsys root c' items), snd (list_books fsys root c' items))"
      using True by (simp add: list_books_def list_candidates_def g split: prod.splits)
    show ?thesis
    proof (cases r)
      case None
      with True g lb show ?thesis by (simp add: Cons.IH)
    next
      case (Some book)
      with True g lb show ?thesis by (simp add: Cons.IH)
    qed
  qed
qed

text \<open>
  C6. Where the store root exists and can be listed, the catalog listing is the
  Catalog Assembler of the specification: of the root's direct children it considers
  exactly those that are directories with a name ending in \<open>_data\<close>, asks the cache
  for each in turn, emits nothing for a candidate that resolves to absent, and for a
  resolved book emits the folder identity, the title, the authors joined with a comma
  and a space, and the length of the spine. The cache is left as those \<open>get\<close> calls
  leave it.
\<close>

theorem library_view_catalog:
  assumes "path_exists fsys root" and "listdir fsys root = Some children"
  shows "library_view fsys root c = (Inr (fst (list_books fsys root c children)),
                                     snd (list_books fsys root c children))"
  using assms by (simp add: library_view_def library_loop_list_books case_prod_beta)

theorem library_view_catalog_witness:
  "path_exists sample_store ''/data''
   \<and> listdir sample_store ''/data'' = Some [''empty_data'', ''Sample_data'', ''notes_data'']
   \<and> list_candidates sample_store ''/data'' [''empty_data'', ''Sample_data'', ''notes_data'']
       = [''empty_data'', ''Sample_data'']
   \<and> fst (library_view sample_store ''/data'' cache_empty) =
       Inr [\<lparr>entry_id = ''Sample_data'', entry_title = ''Sample'',
             entry_author = ''A. Author'', entry_chapters = 3\<rparr>]"
proof -
  have e: "path_exists sample_store ''/data''"
    by (simp add: sample_store_def)
  have l: "listdir sample_store ''/data'' = Some [''empty_data'', ''Sample_data'', ''notes_data'']"
    by (simp add: sample_store_def)
  have s: "list_candidates sample_store ''/data'' [''empty_data'', ''Sample_data'', ''notes_data'']
       = [''empty_data'', ''Sample_data'']"
    by (simp add: list_candidates_def sample_store_def endswith_def path_join_def join_step_def
        startswith_def)
  have b: "fst (list_books sample_store ''/data'' cache_empty
                 [''empty_data'', ''Sample_data'', ''notes_data'']) =
       [\<lparr>entry_id = ''Sample_data'', entry_title = ''Sample'',
             entry_author = ''A. Author'', entry_chapters = 3\<rparr>]"
    by (simp add: list_books_def s)
       (simp add: sample_store_def sample_book_def eval_defs Let_def)
  from library_view_catalog [OF e l, of cache_empty] e l s b show ?thesis by simp
qed

text \<open>
  C10. When the store root does not exist, the catalog listing is the empty list of
  books, not an error, and the cache is left as it was.
\<close>

theorem library_view_missing_root:
  "\<not> path_exists fsys BOOKS_DIR \<Longrightarrow> library_view fsys BOOKS_DIR c = (Inr [], c)"
  by (simp add: library_view_def)

theorem library_view_missing_root_witness:
  "\<not> path_exists no_store ''/data'' \<and> library_view no_store ''/data'' cache_empty = (Inr [], cache_empty)"
  using library_view_missing_root [of no_store "''/data''" cache_empty]
  by (simp add: no_store_def)

section \<open>Chapter navigation\<close>

text \<open>
  C2. When the cache resolves the identity to a book whose spine has length
  \<open>n \<ge> 1\<close>, and \<open>0 \<le> i < n\<close>, reading chapter \<open>i\<close> succeeds: the chapter is
  \<open>spine[i]\<close>, the previous index is \<open>i - 1\<close> when \<open>i > 0\<close> and absent exactly when
  \<open>i = 0\<close>, the next index is \<open>i + 1\<close> when \<open>i < n - 1\<close> and absent exactly when
  \<open>i = n - 1\<close>.
\<close>

theorem read_chapter_in_range:
  assumes "load_book_cached fsys root c bid = (Some book, c')"
    and "1 \<le> length (spine book)" and "0 \<le> i" and "i < int (length (spine book))"
  shows "\<exists>r. read_chapter fsys root c request bid i = (Inr r, c')
           \<and> current_chapter r = spine book ! nat i
           \<and> ctx_book r = book \<and> chapter_index r = i \<and> book_id r = bid
           \<and> prev_idx r = (if 0 < i then Some (i - 1) else None)
           \<and> (prev_idx r = None \<longleftrightarrow> i = 0)
           \<and> next_idx r = (if i < int (length (spine book)) - 1 then Some (i + 1) else None)
           \<and> (next_idx r = None \<longleftrightarrow> i = int (length (spine book)) - 1)"
  using assms by (auto simp: read_chapter_def)

theorem read_chapter_in_range_witness:
  "load_book_cached sample_store ''/data'' cache_empty ''Sample_data''
     = (Some sample_book, \<lparr>entries = [(''Sample_data'', Some sample_book)], hits = 0, misses = 1\<rparr>)
   \<and> length (spine sample_book) = 3
   \<and> (\<exists>r. fst (read_chapter sample_store ''/data'' cache_empty (Request ''GET'') ''Sample_data'' 2) = Inr r
         \<and> current_chapter r = ChapterContent ''three''
         \<and> prev_idx r = Some 1 \<and> next_idx r = None)"
proof -
  have g: "load_book_cached sample_store ''/data'' cache_empty ''Sample_data''
     = (Some sample_book, \<lparr>entries = [(''Sample_data'', Some sample_book)], hits = 0, misses = 1\<rparr>)"
    by (simp add: sample_store_def eval_defs)
  have n: "length (spine sample_book) = 3" by (simp add: sample_book_def)
  have c: "spine sample_book ! nat 2 = ChapterContent ''three''"
    by (simp add: sample_book_def)
  from read_chapter_in_range [OF g, of 2 "Request ''GET''"] obtain r where
    "read_chapter sample_store ''/data'' cache_empty (Request ''GET'') ''Sample_data'' 2
       = (Inr r, \<lparr>entries = [(''Sample_data'', Some sample_book)], hits = 0, misses = 1\<rparr>)"
    "current_chapter r = spine sample_book ! nat 2"
    "prev_idx r = (if (0::int) < 2 then Some (2 - 1) else None)"
    "next_idx r = (if 2 < int (length (spine sample_book)) - 1 then Some (2 + 1) else None)"
    by (auto simp: n)
  with g n c show ?thesis by simp
qed

text \<open>
  C3. When the cache resolves the identity to absent, reading fails with
  \<open>BookNotFound\<close> whatever the index is, so the book is checked before the index; this
  is the case in particular when the cache holds no book for the identity and the disk
  yields none. When the cache resolves the identity to a book, reading fails with
  \<open>ChapterOutOfRange\<close> exactly when the index is negative or at least the length of
  the spine.
\<close>

theorem read_chapter_errors:
  "(fst (load_book_cached fsys root c bid) = None \<longrightarrow>
      (\<forall>i. fst (read_chapter fsys root c request bid i) = Inl BookNotFound))
   \<and> (load_book fsys root bid = None \<and> (\<forall>book. map_of (entries c) bid \<noteq> Some (Some book)) \<longrightarrow>
        fst (load_book_cached fsys root c bid) = None)
   \<and> (\<forall>book. fst (load_book_cached fsys root c bid) = Some book \<longrightarrow>
        (\<forall>i. fst (read_chapter fsys root c request bid i) = Inl ChapterOutOfRange
             \<longleftrightarrow> i < 0 \<or> int (length (spine book)) \<le> i))"
proof (intro conjI impI allI)
  fix i
  assume "fst (load_book_cached fsys root c bid) = None"
  then show "fst (read_chapter fsys root c request bid i) = Inl BookNotFound"
    by (auto simp: read_chapter_def BookNotFound_def split: prod.splits)
next
  assume "load_book fsys root bid = None \<and> (\<forall>book. map_of (entries c) bid \<noteq> Some (Some book))"
  then show "fst (load_book_cached fsys root c bid) = None"
    by (cases "map_of (entries c) bid") (auto simp: load_book_cached_def lru_call_def Let_def)
next
  fix book i
  assume "fst (load_book_cached fsys root c bid) = Some book"
  then show "fst (read_chapter fsys root c request bid i) = Inl ChapterOutOfRange
             \<longleftrightarrow> i < 0 \<or> int (length (spine book)) \<le> i"
    by (auto simp: read_chapter_def ChapterOutOfRange_def split: prod.splits if_splits)
qed

theorem read_chapter_errors_witness:
  "fst (load_book_cached sample_store ''/data'' cache_empty ''empty_data'') = None
   \<and> fst (read_chapter sample_store ''/data'' cache_empty (Request ''GET'') ''empty_data'' 0)
       = Inl BookNotFound
   \<and> fst (read_chapter sample_store ''/data'' cache_empty (Request ''GET'') ''empty_data'' 99)
       = Inl BookNotFound
   \<and> fst (load_book_cached sample_store ''/data'' cache_empty ''Sample_data'') = Some sample_book
   \<and> fst (read_chapter sample_store ''/data'' cache_empty (Request ''GET'') ''Sample_data'' 3)
       = Inl ChapterOutOfRange
   \<and> fst (read_chapter sample_store ''/data'' cache_empty (Request ''GET'') ''Sample_data'' (- 1))
       = Inl ChapterOutOfRange
   \<and> fst (read_chapter sample_store ''/data'' cache_empty (Request ''GET'') ''Sample_data'' 2)
       \<noteq> Inl ChapterOutOfRange"
proof -
  have a: "fst (load_book_cached sample_store ''/data'' cache_empty ''empty_data'') = None"
    by (simp add: sample_store_def eval_defs)
  have b: "fst (load_book_cached sample_store ''/data'' cache_empty ''Sample_data'') = Some sample_book"
    by (simp add: sample_store_def eval_defs)
  have n: "length (spine sample_book) = 3" by (simp add: sample_book_def)
  note t1 = read_chapter_errors [of sample_store "''/data''" cache_empty "''empty_data''" "Request ''GET''"]
  note t2 = read_chapter_errors [of sample_store "''/data''" cache_empty "''Sample_data''" "Request ''GET''"]
  from t1 a have "\<forall>i. fst (read_chapter sample_store ''/data'' cache_empty (Request ''GET'') ''empty_data'' i)
       = Inl BookNotFound" by blast
  moreover from t2 b have "\<forall>i. fst (read_chapter sample_store ''/data'' cache_empty (Request ''GET'') ''Sample_data'' i)
       = Inl ChapterOutOfRange \<longleftrightarrow> i < 0 \<or> int (length (spine sample_book)) \<le> i" by blast
  ultimately show ?thesis using a b by (simp add: n)
qed

text \<open>
  C7. The bare read request calls \<^verbatim>\<open>read_chapter\<close> without its \<open>request\<close>
  argument. For the sample book, whose chapter 0 reads fine when asked for by index,
  the bare request ends in the \<^verbatim>\<open>TypeError\<close> of the call instead.
\<close>

theorem bare_read_raises:
  "fst (redirect_to_first_chapter sample_store ''/data'' cache_empty ''Sample_data'')
     = Inl (TypeError ''read_chapter() missing 1 required positional argument: request'')
   \<and> fst (read_chapter sample_store ''/data'' cache_empty (Request ''GET'') ''Sample_data'' 0)
     = Inr \<lparr>ctx_request = Request ''GET'', ctx_book = sample_book,
            current_chapter = ChapterContent ''one'', chapter_index = 0,
            book_id = ''Sample_data'', prev_idx = None, next_idx = Some 1\<rparr>"
  by (simp add: redirect_to_first_chapter_def call_read_chapter_def read_chapter_def
      sample_store_def sample_book_def eval_defs)

section \<open>Images and uploads\<close>

text \<open>
  C1. Both names are cut down to their last component before the path is joined, and
  \<open>../../etc\<close> with \<open>../secret\<close> gives \<open>/data/etc/images/secret\<close>. The last
  component of \<open>..\<close> is \<open>..\<close> itself, though: for that book identity the path built
  is \<open>/data/../images/cover.jpg\<close>, which leads to \<open>/images/cover.jpg\<close>, outside the
  store root \<open>/data\<close>, and the handler serves it.
\<close>

theorem image_path_escapes:
  "basename ''../../etc'' = ''etc'' \<and> basename ''../secret'' = ''secret''
   \<and> image_path ''/data'' ''../../etc'' ''../secret'' = ''/data/etc/images/secret''
   \<and> basename ''..'' = ''..''
   \<and> image_path ''/data'' ''..'' ''cover.jpg'' = ''/data/../images/cover.jpg''
   \<and> leads_to (image_path ''/data'' ''..'' ''cover.jpg'') = [''images'', ''cover.jpg'']
   \<and> \<not> inside ''/data'' (image_path ''/data'' ''..'' ''cover.jpg'')
   \<and> serve_image sample_store ''/data'' ''..'' ''cover.jpg'' = Inr ''/data/../images/cover.jpg''
   \<and> inside ''/data'' (image_path ''/data'' ''Sample_data'' ''cover.jpg'')"
  by (simp add: serve_image_def image_path_def basename_def sample_store_def eval_defs
      inside_def leads_to_def)

text \<open>
  C8. An upload named \<open>Sample.epub\<close> whose ingestion fails is answered with status
  500 while its temporary file is still there; only the successful upload removes it.
\<close>

theorem failed_upload_leaves_temp_file:
  "endswith ''Sample.epub'' ''.epub''
   \<and> upload_epub failing_ingest ''/data'' idle_server ''Sample.epub''
       = (JSONResponse 500 [(''error'', JStr ''File is not a zip file'')],
          \<lparr>book_cache = cache_empty, tmp_files = {''/tmp/tmpk3v9.epub''}\<rparr>)
   \<and> tmp_files (snd (upload_epub working_ingest ''/data'' idle_server ''Sample.epub'')) = {}"
  by (simp add: upload_epub_def failing_ingest_def working_ingest_def idle_server_def
      endswith_def upload_output_dir_def)

text \<open>
  C9. The upload name \<open>../../evil.epub\<close> passes the extension check and gives the
  output folder \<open>/data/books/../../evil_data\<close>: it contains traversal segments and
  leads to \<open>/evil_data\<close>, not to a folder directly under the store root
  \<open>/data/books\<close>, where the folder of \<open>Sample.epub\<close> lies.
\<close>

theorem upload_output_dir_escapes:
  "endswith ''../../evil.epub'' ''.epub''
   \<and> upload_output_dir ''/data/books'' ''../../evil.epub'' = ''/data/books/../../evil_data''
   \<and> has_traversal (upload_output_dir ''/data/books'' ''../../evil.epub'')
   \<and> leads_to (upload_output_dir ''/data/books'' ''../../evil.epub'') = [''evil_data'']
   \<and> \<not> directly_under ''/data/books'' (upload_output_dir ''/data/books'' ''../../evil.epub'')
   \<and> directly_under ''/data/books'' (upload_output_dir ''/data/books'' ''Sample.epub'')"
  by (simp add: upload_output_dir_def splitext_evil splitext_sample eval_defs has_traversal_def
      directly_under_def leads_to_def)

end
